theory Spec2Isabelle
  imports Main "HOL-Library.Sublist"
begin

section \<open>Network error codes\<close>

text \<open>
  \<^verbatim>\<open>NETWORK_ERROR_CODES\<close> is the array of the six Node.js error codes that put the CLI
  into offline mode. \<^verbatim>\<open>isNetworkError(code: string | undefined)\<close> is
  \<^verbatim>\<open>code !== undefined && NETWORK_ERROR_CODES.includes(code)\<close>; the argument is a
  \<open>string option\<close>, \<open>None\<close> standing for \<^verbatim>\<open>undefined\<close>.
\<close>

definition NETWORK_ERROR_CODES :: "string list" where
  "NETWORK_ERROR_CODES =
     [''ECONNREFUSED'', ''ENOTFOUND'', ''ETIMEDOUT'',
      ''ECONNRESET'', ''EHOSTUNREACH'', ''ENETUNREACH'']"

definition isNetworkError :: "string option \<Rightarrow> bool" where
  "isNetworkError code =
     (case code of None \<Rightarrow> False | Some c \<Rightarrow> c \<in> set NETWORK_ERROR_CODES)"

section \<open>Offline state aggregator\<close>

text \<open>
  \<^verbatim>\<open>ERROR_DESCRIPTIONS\<close> maps error codes to human-readable descriptions. The table is
  an object literal: \<open>ERROR_DESCRIPTIONS\<close> is the association list of its own keys, in
  source order, and \<open>Object_prototype\<close> lists the properties it inherits, which
  \<^verbatim>\<open>ERROR_DESCRIPTIONS[code]\<close> finds as well. Each inherited value is a function or an
  object, so it is truthy; it is listed with the text Node prints for it in a template
  literal.
\<close>

definition ERROR_DESCRIPTIONS :: "(string \<times> string) list" where
  "ERROR_DESCRIPTIONS =
     [(''ECONNREFUSED'', ''server not accepting connections''),
      (''ENOTFOUND'', ''server hostname not found''),
      (''ETIMEDOUT'', ''connection timed out''),
      (''ECONNRESET'', ''connection reset by server''),
      (''EHOSTUNREACH'', ''server host unreachable''),
      (''ENETUNREACH'', ''network unreachable''),
      (''401'', ''authentication failed - run `happy auth`''),
      (''403'', ''access forbidden''),
      (''404'', ''endpoint not found, check server deployment''),
      (''500'', ''server internal error''),
      (''502'', ''bad gateway''),
      (''503'', ''service unavailable'')]"

definition Object_prototype :: "(string \<times> string) list" where
  "Object_prototype =
     [(''constructor'', ''function Object() { [native code] }''),
      (''__defineGetter__'', ''function __defineGetter__() { [native code] }''),
      (''__defineSetter__'', ''function __defineSetter__() { [native code] }''),
      (''hasOwnProperty'', ''function hasOwnProperty() { [native code] }''),
      (''__lookupGetter__'', ''function __lookupGetter__() { [native code] }''),
      (''__lookupSetter__'', ''function __lookupSetter__() { [native code] }''),
      (''isPrototypeOf'', ''function isPrototypeOf() { [native code] }''),
      (''propertyIsEnumerable'', ''function propertyIsEnumerable() { [native code] }''),
      (''toString'', ''function toString() { [native code] }''),
      (''valueOf'', ''function valueOf() { [native code] }''),
      (''__proto__'', ''[object Object]''),
      (''toLocaleString'', ''function toLocaleString() { [native code] }'')]"

text \<open>
  \<^verbatim>\<open>OfflineFailure\<close>: the operation name and four optional fields (\<open>None\<close> is an absent
  field).
\<close>

record OfflineFailure =
  operation :: string
  caller :: "string option"
  errorCode :: "string option"
  url :: "string option"
  details :: "string list option"

datatype mode = online | offline

text \<open>
  One \<^verbatim>\<open>console.log\<close> call. The summary line is logged as it is; a detail line is
  logged through \<^verbatim>\<open>chalk.yellow\<close>, which is kept as a constructor because the escape
  codes it adds depend on the terminal.
\<close>

datatype line = Plain string | Yellow string

text \<open>
  The class \<^verbatim>\<open>OfflineState\<close>: its three private fields, and the lines written to the
  console so far. \<^verbatim>\<open>failures\<close> is a JavaScript \<^verbatim>\<open>Map\<close>, which iterates in insertion
  order, so it is an association list with one entry per key.
\<close>

record OfflineState =
  state :: mode
  failures :: "(string \<times> OfflineFailure) list"
  backend :: string
  console :: "line list"

text \<open>
  \<^verbatim>\<open>Map.prototype.set\<close>: a key already present keeps its position and takes the new
  value; a new key goes to the end.
\<close>

fun Map_set :: "'k \<Rightarrow> 'v \<Rightarrow> ('k \<times> 'v) list \<Rightarrow> ('k \<times> 'v) list" where
  "Map_set k v [] = [(k, v)]"
| "Map_set k v ((k', v') # m) = (if k' = k then (k, v) # m else (k', v') # Map_set k v m)"

text \<open>\<^verbatim>\<open>Array.prototype.join\<close> on strings.\<close>

fun join :: "string \<Rightarrow> string list \<Rightarrow> string" where
  "join sep [] = []"
| "join sep [x] = x"
| "join sep (x # y # ys) = x @ sep @ join sep (y # ys)"

text \<open>
  The two fixed pieces of text of \<^verbatim>\<open>print\<close>, as UTF-8 bytes: the warning sign
  (U+26A0 U+FE0F) opens the summary line and the arrow (U+2192) a detail line.
\<close>

definition warning_prefix :: string where
  "warning_prefix =
     [CHR 0xE2, CHR 0x9A, CHR 0xA0, CHR 0xEF, CHR 0xB8, CHR 0x8F] @
     ''  Happy server unreachable, offline mode with auto-reconnect enabled - error details: ''"

definition detail_prefix :: string where
  "detail_prefix = ''   '' @ [CHR 0xE2, CHR 0x86, CHR 0x92] @ '' ''"

text \<open>
  The body of the \<^verbatim>\<open>map\<close> callback in \<^verbatim>\<open>print\<close>. An empty string is falsy in
  JavaScript, so an empty error code and an empty URL are treated as absent ones. Every
  description in the table is a non-empty string and every inherited property is truthy,
  so \<^verbatim>\<open>||\<close> yields \<^verbatim>\<open>'unknown error'\<close> only for a code that is neither an own key
  of the table nor the name of an inherited property.
\<close>

definition describe :: "OfflineFailure \<Rightarrow> string" where
  "describe f =
     (let desc = (case errorCode f of
                    None \<Rightarrow> ''unknown error''
                  | Some c \<Rightarrow>
                      if c = [] then ''unknown error''
                      else c @ '' - '' @
                        (case map_of ERROR_DESCRIPTIONS c of
                           Some d \<Rightarrow> d
                         | None \<Rightarrow>
                             (case map_of Object_prototype c of
                                Some inherited \<Rightarrow> inherited
                              | None \<Rightarrow> ''unknown error'')));
          at_url = (case url f of
                      None \<Rightarrow> []
                    | Some u \<Rightarrow> if u = [] then [] else '' at '' @ u)
      in operation f @ '' failed: '' @ desc @ at_url)"

definition print :: "OfflineState \<Rightarrow> OfflineState" where
  "print s =
     (let vals = map snd (failures s);
          summary = join ''; '' (map describe vals);
          allDetails = concat (map (\<lambda>f. case details f of None \<Rightarrow> [] | Some d \<Rightarrow> d) vals)
      in s\<lparr>console := console s @ Plain (warning_prefix @ summary) #
                         map (\<lambda>l. Yellow (detail_prefix @ l)) allDetails\<rparr>)"

definition fail :: "OfflineFailure \<Rightarrow> OfflineState \<Rightarrow> OfflineState" where
  "fail failure s =
     (let s1 = s\<lparr>failures := Map_set (operation failure) failure (failures s)\<rparr>
      in if state s1 = online then print (s1\<lparr>state := offline\<rparr>) else s1)"

definition recover :: "OfflineState \<Rightarrow> OfflineState" where
  "recover s = s\<lparr>state := online, failures := []\<rparr>"

definition setBackend :: "string \<Rightarrow> OfflineState \<Rightarrow> OfflineState" where
  "setBackend name s = s\<lparr>backend := name\<rparr>"

definition isOffline :: "OfflineState \<Rightarrow> bool" where
  "isOffline s = (state s = offline)"

definition reset :: "OfflineState \<Rightarrow> OfflineState" where
  "reset s = s\<lparr>state := online, failures := [], backend := ''Claude''\<rparr>"

text \<open>The singleton \<^verbatim>\<open>connectionState = new OfflineState()\<close>, with nothing printed yet.\<close>

definition connectionState :: OfflineState where
  "connectionState = \<lparr>state = online, failures = [], backend = ''Claude'', console = []\<rparr>"

text \<open>
  A sequence of calls on the aggregator. \<^verbatim>\<open>isOffline\<close> is a query and leaves the
  object as it is.
\<close>

datatype call = Fail OfflineFailure | Recover | SetBackend string | IsOffline | Reset

fun apply_call :: "call \<Rightarrow> OfflineState \<Rightarrow> OfflineState" where
  "apply_call (Fail f) s = fail f s"
| "apply_call Recover s = recover s"
| "apply_call (SetBackend name) s = setBackend name s"
| "apply_call IsOffline s = s"
| "apply_call Reset s = reset s"

fun run_calls :: "call list \<Rightarrow> OfflineState \<Rightarrow> OfflineState" where
  "run_calls [] s = s"
| "run_calls (c # cs) s = run_calls cs (apply_call c s)"

text \<open>
  Observers for the claims: the number of warnings on the console (a warning is the one
  summary line of a \<^verbatim>\<open>print\<close>; its detail lines go through \<^verbatim>\<open>chalk.yellow\<close>), and
  the number of online-to-offline transitions along a sequence of calls.
\<close>

fun is_warning :: "line \<Rightarrow> bool" where
  "is_warning (Plain _) = True"
| "is_warning (Yellow _) = False"

definition warnings :: "OfflineState \<Rightarrow> nat" where
  "warnings s = length (filter is_warning (console s))"

fun went_offline :: "call list \<Rightarrow> OfflineState \<Rightarrow> nat" where
  "went_offline [] s = 0"
| "went_offline (c # cs) s =
     (if state s = online \<and> state (apply_call c s) = offline then 1 else 0) +
     went_offline cs (apply_call c s)"

text \<open>The two failure reports of the two-caller scenario.\<close>

definition session_creation_404 :: OfflineFailure where
  "session_creation_404 =
     \<lparr>operation = ''Session creation'', caller = None, errorCode = Some ''404'',
      url = None, details = None\<rparr>"

definition machine_registration_refused :: OfflineFailure where
  "machine_registration_refused =
     \<lparr>operation = ''Machine registration'', caller = None, errorCode = Some ''ECONNREFUSED'',
      url = None, details = None\<rparr>"

section \<open>Offline reconnection engine\<close>

text \<open>
  A value thrown by the health check or by the reconnection callback. The catch block of
  \<^verbatim>\<open>attemptReconnect\<close> reads two things from it: whether \<^verbatim>\<open>axios.isAxiosError\<close>
  accepts it and, only then, \<^verbatim>\<open>e.response?.status\<close> (\<open>None\<close> when there is no response
  or no status). An error carries the HTTP status 401, for the engine, when both tests
  of \<open>is401\<close> below succeed.
\<close>

datatype thrown = Thrown (isAxiosError: bool) (response_status: "nat option")

text \<open>
  What the reconnection callback resolves with, and what \<^verbatim>\<open>getSession()\<close> returns: the
  variable \<^verbatim>\<open>session\<close> starts as \<^verbatim>\<open>null\<close>, and a callback may resolve with
  \<^verbatim>\<open>null\<close> or \<^verbatim>\<open>undefined\<close> as well as with a session object.
\<close>

datatype 'a jsval = Null | Undefined | Value 'a

text \<open>
  Where the one asynchronous activation of \<^verbatim>\<open>attemptReconnect\<close> is suspended: nowhere,
  at \<^verbatim>\<open>await healthCheck()\<close>, or at \<^verbatim>\<open>await config.onReconnected()\<close>.
\<close>

datatype phase = Idle | AwaitHealthCheck | AwaitOnReconnected

text \<open>
  The closure of \<^verbatim>\<open>startOfflineReconnection\<close>. The first five fields are its
  \<^verbatim>\<open>let\<close> variables. The others are the surroundings the closure acts on: the
  suspension point, the timers armed in the event loop (a timer is identified by a number;
  \<^verbatim>\<open>nextTimer\<close> is the next fresh one, so it counts the \<^verbatim>\<open>setTimeout\<close> calls made),
  how often the health check, the reconnection callback and the cleanup callback have been
  called, and the messages passed to \<^verbatim>\<open>onNotify\<close>, oldest first.

  Time is left to the environment: the delay given to \<^verbatim>\<open>setTimeout\<close> (the initial
  delay, later the jittered \<^verbatim>\<open>exponentialBackoffDelay\<close>) only decides when the timer's
  event arrives. \<^verbatim>\<open>logger.debug\<close> returns normally.
\<close>

record 'a engine =
  reconnected :: bool
  session :: "'a jsval"
  timeoutId :: "nat option"
  failureCount :: nat
  cancelled :: bool
  phase :: phase
  timers :: "nat list"
  nextTimer :: nat
  healthCheckCalls :: nat
  onReconnectedCalls :: nat
  cleanupCalls :: nat
  notified :: "string list"

text \<open>
  The configuration, as far as it is not played by the events: whether \<^verbatim>\<open>onCleanup\<close>
  is given, and what \<^verbatim>\<open>onNotify\<close> does when it is called with a message: it returns
  (\<open>None\<close>) or it throws a value. A call of \<^verbatim>\<open>onNotify\<close> is recorded in
  \<^verbatim>\<open>notified\<close> whether it returns or throws. An exception from \<^verbatim>\<open>onCleanup\<close> leaves
  \<^verbatim>\<open>cancel()\<close> after all its assignments and changes nothing here.
\<close>

record config =
  onCleanup :: bool
  onNotify :: "string \<Rightarrow> thrown option"

text \<open>The two notification strings, as UTF-8 bytes (U+2705 and U+274C in front).\<close>

definition success_message :: string where
  "success_message =
     [CHR 0xE2, CHR 0x9C, CHR 0x85] @ '' Reconnected! Session syncing in background.''"

definition auth_failed_message :: string where
  "auth_failed_message =
     [CHR 0xE2, CHR 0x9D, CHR 0x8C] @
     '' Authentication failed. Please re-authenticate with `happy auth`.''"

text \<open>
  \<^verbatim>\<open>timeoutId = setTimeout(attemptReconnect, delay)\<close> arms a fresh timer and stores its
  handle; \<^verbatim>\<open>clearTimeout\<close> disarms one, and does nothing for a timer that has fired.
\<close>

definition setTimeout :: "'a engine \<Rightarrow> 'a engine" where
  "setTimeout s =
     s\<lparr>timeoutId := Some (nextTimer s), timers := timers s @ [nextTimer s],
       nextTimer := Suc (nextTimer s)\<rparr>"

definition clearTimeout :: "nat \<Rightarrow> 'a engine \<Rightarrow> 'a engine" where
  "clearTimeout t s = s\<lparr>timers := removeAll t (timers s)\<rparr>"

text \<open>
  \<^verbatim>\<open>startOfflineReconnection\<close> initialises the variables and arms the first timer.
\<close>

definition startOfflineReconnection :: "config \<Rightarrow> 'a engine" where
  "startOfflineReconnection cfg =
     setTimeout
       \<lparr>reconnected = False, session = Null, timeoutId = None, failureCount = 0,
        cancelled = False, phase = Idle, timers = [], nextTimer = 0, healthCheckCalls = 0,
        onReconnectedCalls = 0, cleanupCalls = 0, notified = []\<rparr>"

text \<open>
  \<^verbatim>\<open>attemptReconnect\<close> in the four pieces between its suspension points: from the entry
  to \<^verbatim>\<open>await healthCheck()\<close>; from a resolved health check to
  \<^verbatim>\<open>await config.onReconnected()\<close>; from a resolved callback to the end of the
  \<^verbatim>\<open>try\<close> block; and the \<^verbatim>\<open>catch\<close> block. The catch block is entered from either
  await and also from the success notification, which is called inside the \<^verbatim>\<open>try\<close>
  block: what \<^verbatim>\<open>onNotify\<close> throws there is classified like any other error. What
  \<^verbatim>\<open>onNotify\<close> throws inside the catch block leaves the activation, which ends there
  anyway.
\<close>

definition attemptReconnect :: "'a engine \<Rightarrow> 'a engine" where
  "attemptReconnect s =
     (if reconnected s \<or> cancelled s then s
      else s\<lparr>healthCheckCalls := Suc (healthCheckCalls s), phase := AwaitHealthCheck\<rparr>)"

definition after_healthCheck :: "'a engine \<Rightarrow> 'a engine" where
  "after_healthCheck s =
     (if cancelled s then s\<lparr>phase := Idle\<rparr>
      else s\<lparr>onReconnectedCalls := Suc (onReconnectedCalls s), phase := AwaitOnReconnected\<rparr>)"

definition is401 :: "thrown \<Rightarrow> bool" where
  "is401 e = (isAxiosError e \<and> response_status e = Some 401)"

definition catch_block :: "thrown \<Rightarrow> 'a engine \<Rightarrow> 'a engine" where
  "catch_block e s =
     (let s0 = s\<lparr>phase := Idle\<rparr>
      in if is401 e then s0\<lparr>notified := notified s0 @ [auth_failed_message]\<rparr>
         else let s1 = s0\<lparr>failureCount := Suc (failureCount s0)\<rparr>
              in if \<not> cancelled s1 then setTimeout s1 else s1)"

definition after_onReconnected :: "config \<Rightarrow> 'a jsval \<Rightarrow> 'a engine \<Rightarrow> 'a engine" where
  "after_onReconnected cfg v s =
     (let s1 = s\<lparr>session := v, phase := Idle\<rparr>
      in if cancelled s1 then s1
         else let s2 = s1\<lparr>reconnected := True, notified := notified s1 @ [success_message]\<rparr>
              in case onNotify cfg success_message of
                   None \<Rightarrow> s2
                 | Some e \<Rightarrow> catch_block e s2)"

text \<open>
  The three functions of the returned handle. A timer handle is an object in Node, so
  \<^verbatim>\<open>if (timeoutId)\<close> tests for a handle that is not \<^verbatim>\<open>null\<close>. \<^verbatim>\<open>config.onCleanup?.()\<close>
  calls the cleanup callback when one is configured.
\<close>

definition cancel :: "config \<Rightarrow> 'a engine \<Rightarrow> 'a engine" where
  "cancel cfg s =
     (let s1 = s\<lparr>cancelled := True\<rparr>;
          s2 = (case timeoutId s1 of
                  Some t \<Rightarrow> (clearTimeout t s1)\<lparr>timeoutId := None\<rparr>
                | None \<Rightarrow> s1)
      in if onCleanup cfg then s2\<lparr>cleanupCalls := Suc (cleanupCalls s2)\<rparr> else s2)"

definition getSession :: "'a engine \<Rightarrow> 'a jsval" where
  "getSession s = session s"

definition isReconnected :: "'a engine \<Rightarrow> bool" where
  "isReconnected s = reconnected s"

text \<open>
  What can happen to a running engine: an armed timer fires, the pending health check or
  callback settles, or the owner calls \<^verbatim>\<open>cancel()\<close>. \<^verbatim>\<open>step\<close> is \<open>None\<close> for an event
  that cannot happen in the state: a timer that is not armed, a settlement nobody awaits.
  A timer fires only between activations; \<open>armed_timer_idle\<close> below shows that no timer
  is armed while an activation is suspended, so nothing is excluded by that.
\<close>

datatype 'a event =
    TimerFires nat
  | HealthCheckResolves
  | HealthCheckThrows thrown
  | OnReconnectedResolves "'a jsval"
  | OnReconnectedThrows thrown
  | Cancel

fun step :: "config \<Rightarrow> 'a event \<Rightarrow> 'a engine \<Rightarrow> 'a engine option" where
  "step cfg (TimerFires t) s =
     (if t \<in> set (timers s) \<and> phase s = Idle
      then Some (attemptReconnect (clearTimeout t s)) else None)"
| "step cfg HealthCheckResolves s =
     (if phase s = AwaitHealthCheck then Some (after_healthCheck s) else None)"
| "step cfg (HealthCheckThrows e) s =
     (if phase s = AwaitHealthCheck then Some (catch_block e s) else None)"
| "step cfg (OnReconnectedResolves v) s =
     (if phase s = AwaitOnReconnected then Some (after_onReconnected cfg v s) else None)"
| "step cfg (OnReconnectedThrows e) s =
     (if phase s = AwaitOnReconnected then Some (catch_block e s) else None)"
| "step cfg Cancel s = Some (cancel cfg s)"

text \<open>
  A run is a list of events, each possible where it happens. \<open>run\<close> gives the state it
  ends in and \<open>run_trace\<close> every state it goes through, the first one included.
\<close>

fun run :: "config \<Rightarrow> 'a event list \<Rightarrow> 'a engine \<Rightarrow> 'a engine option" where
  "run cfg [] s = Some s"
| "run cfg (ev # evs) s =
     (case step cfg ev s of None \<Rightarrow> None | Some s' \<Rightarrow> run cfg evs s')"

fun run_trace :: "config \<Rightarrow> 'a event list \<Rightarrow> 'a engine \<Rightarrow> 'a engine list option" where
  "run_trace cfg [] s = Some [s]"
| "run_trace cfg (ev # evs) s =
     (case step cfg ev s of
        None \<Rightarrow> None
      | Some s' \<Rightarrow> (case run_trace cfg evs s' of None \<Rightarrow> None | Some tr \<Rightarrow> Some (s # tr)))"

text \<open>How often a flag goes from false to true along a list of readings.\<close>

fun becomes_true :: "bool list \<Rightarrow> nat" where
  "becomes_true (a # b # bs) = (if \<not> a \<and> b then 1 else 0) + becomes_true (b # bs)"
| "becomes_true _ = 0"

text \<open>
  The run of the first claim: each health-check failure is a timer firing and the health
  check throwing (the catch block arms the next timer); then the timer fires once more,
  the health check resolves and the callback resolves with \<open>v\<close>. The timers are numbered
  from \<open>k\<close>.
\<close>

fun failures_then_success :: "nat \<Rightarrow> thrown list \<Rightarrow> 'a jsval \<Rightarrow> 'a event list" where
  "failures_then_success k [] v = [TimerFires k, HealthCheckResolves, OnReconnectedResolves v]"
| "failures_then_success k (e # es) v =
     TimerFires k # HealthCheckThrows e # failures_then_success (Suc k) es v"

fun is_resolution :: "'a event \<Rightarrow> bool" where
  "is_resolution (OnReconnectedResolves _) = True"
| "is_resolution _ = False"

text \<open>
  What the success notification does to the activation that sends it: \<^verbatim>\<open>onNotify\<close>
  throws a value that the catch block takes for the terminal 401, or one that it takes
  for a retryable failure, or (neither) it returns.
\<close>

definition success_notice_throws_401 :: "config \<Rightarrow> bool" where
  "success_notice_throws_401 cfg =
     (case onNotify cfg success_message of None \<Rightarrow> False | Some e \<Rightarrow> is401 e)"

definition success_notice_throws_other :: "config \<Rightarrow> bool" where
  "success_notice_throws_other cfg =
     (case onNotify cfg success_message of None \<Rightarrow> False | Some e \<Rightarrow> \<not> is401 e)"

text \<open>
  The invariant of the engine. An armed timer is the one \<^verbatim>\<open>timeoutId\<close> holds; after
  \<^verbatim>\<open>cancel()\<close> the handle is null; no timer is armed and the flag is not set while an
  activation is suspended; as long as the flag is not set and a timer is armed or an
  activation is suspended, nothing has been notified or stored; no message is notified
  twice; the flag is set exactly when the success message has been notified; and both
  messages are notified only when \<^verbatim>\<open>onNotify\<close> throws an Axios 401 on the success
  message.
\<close>

definition engine_inv :: "config \<Rightarrow> 'a engine \<Rightarrow> bool" where
  "engine_inv cfg s =
     ((\<forall>t \<in> set (timers s). timeoutId s = Some t) \<and>
      (cancelled s \<longrightarrow> timeoutId s = None) \<and>
      (timers s \<noteq> [] \<longrightarrow> phase s = Idle) \<and>
      (phase s \<noteq> Idle \<longrightarrow> \<not> reconnected s) \<and>
      (\<not> reconnected s \<and> (timers s \<noteq> [] \<or> phase s \<noteq> Idle) \<longrightarrow>
         notified s = [] \<and> session s = Null) \<and>
      distinct (notified s) \<and>
      set (notified s) \<subseteq> {success_message, auth_failed_message} \<and>
      (reconnected s = (success_message \<in> set (notified s))) \<and>
      (success_message \<in> set (notified s) \<and> auth_failed_message \<in> set (notified s) \<longrightarrow>
         success_notice_throws_401 cfg))"

text \<open>Nothing armed and nothing suspended: only \<^verbatim>\<open>cancel()\<close> can still happen.\<close>

definition quiescent :: "'a engine \<Rightarrow> bool" where
  "quiescent s = (timers s = [] \<and> phase s = Idle)"

text \<open>
  Nothing suspended, and nothing armed unless the flag is set: a timer that still fires
  returns at the first guard of \<^verbatim>\<open>attemptReconnect\<close>.
\<close>

definition settled :: "'a engine \<Rightarrow> bool" where
  "settled s = (phase s = Idle \<and> (timers s = [] \<or> reconnected s))"

text \<open>
  Two configurations for the examples: one whose \<^verbatim>\<open>onNotify\<close> always returns, and one
  whose \<^verbatim>\<open>onNotify\<close> throws an Axios error with response status 401 when it is given
  the success message. Both have a cleanup callback.
\<close>

fun returns :: "string \<Rightarrow> thrown option" where
  "returns message = None"

fun throws_401_on_success :: "string \<Rightarrow> thrown option" where
  "throws_401_on_success message =
     (if message = success_message then Some (Thrown True (Some 401)) else None)"

definition quiet_config :: config where
  "quiet_config = \<lparr>onCleanup = True, onNotify = returns\<rparr>"

definition throwing_config :: config where
  "throwing_config = \<lparr>onCleanup = True, onNotify = throws_401_on_success\<rparr>"

text \<open>Two states that differ at most in the cancellation flag, the handle and the cleanup count.\<close>

definition same_outcome :: "'a engine \<Rightarrow> 'a engine \<Rightarrow> bool" where
  "same_outcome s s' =
     (reconnected s' = reconnected s \<and> session s' = session s \<and> notified s' = notified s \<and>
      failureCount s' = failureCount s \<and> nextTimer s' = nextTimer s \<and>
      healthCheckCalls s' = healthCheckCalls s \<and> onReconnectedCalls s' = onReconnectedCalls s)"

text \<open>
  The state in which timer \<open>k\<close> is the one armed timer and the most recent one, and
  nothing else is going on.
\<close>

definition armed :: "nat \<Rightarrow> 'a engine \<Rightarrow> bool" where
  "armed k s =
     (timers s = [k] \<and> nextTimer s = Suc k \<and> phase s = Idle \<and> \<not> cancelled s \<and>
      \<not> reconnected s \<and> notified s = [])"

section \<open>Properties of the network error test\<close>

text \<open>
  C9. \<open>isNetworkError code\<close> is true exactly when \<open>code\<close> is one of the six strings
  ECONNREFUSED, ENOTFOUND, ETIMEDOUT, ECONNRESET, EHOSTUNREACH, ENETUNREACH. It is false
  for \<^verbatim>\<open>undefined\<close> and for every other string, among them 401, 404, 500 and the
  empty string.
\<close>

theorem isNetworkError_exactly_six:
  "isNetworkError code =
     (code = Some ''ECONNREFUSED'' \<or> code = Some ''ENOTFOUND'' \<or> code = Some ''ETIMEDOUT'' \<or>
      code = Some ''ECONNRESET'' \<or> code = Some ''EHOSTUNREACH'' \<or> code = Some ''ENETUNREACH'')
   \<and> isNetworkError None = False
   \<and> isNetworkError (Some ''401'') = False
   \<and> isNetworkError (Some ''404'') = False
   \<and> isNetworkError (Some ''500'') = False
   \<and> isNetworkError (Some '''') = False"
proof -
  have six: "isNetworkError code =
     (code = Some ''ECONNREFUSED'' \<or> code = Some ''ENOTFOUND'' \<or> code = Some ''ETIMEDOUT'' \<or>
      code = Some ''ECONNRESET'' \<or> code = Some ''EHOSTUNREACH'' \<or> code = Some ''ENETUNREACH'')"
    by (cases code) (auto simp: isNetworkError_def NETWORK_ERROR_CODES_def)
  have others: "isNetworkError None = False" "isNetworkError (Some ''401'') = False"
    "isNetworkError (Some ''404'') = False" "isNetworkError (Some ''500'') = False"
    "isNetworkError (Some '''') = False"
    by (simp_all add: isNetworkError_def NETWORK_ERROR_CODES_def)
  from six others show ?thesis by blast
qed

section \<open>The engine's invariant and its settled states\<close>

lemma messages_differ:
  "success_message \<noteq> auth_failed_message" "auth_failed_message \<noteq> success_message"
  by (simp_all add: success_message_def auth_failed_message_def)

lemma removeAll_all: "\<forall>x \<in> set xs. x = t \<Longrightarrow> removeAll t xs = []"
  by (induction xs) auto

lemma removeAll_handle:
  assumes "\<forall>t \<in> set xs. h = Some t" and "x \<in> set xs"
  shows "removeAll x xs = []"
proof -
  from assms have "\<forall>t \<in> set xs. t = x" by (metis option.inject)
  then show ?thesis by (rule removeAll_all)
qed

lemma inv_start: "engine_inv cfg (startOfflineReconnection cfg')"
  by (simp add: engine_inv_def startOfflineReconnection_def setTimeout_def)

lemma inv_active:
  "engine_inv cfg s \<Longrightarrow> phase s \<noteq> Idle \<Longrightarrow>
     timers s = [] \<and> \<not> reconnected s \<and> notified s = [] \<and> session s = Null"
  by (cases "timers s") (auto simp: engine_inv_def)

lemma inv_handle:
  "engine_inv cfg s \<Longrightarrow>
     (\<forall>t \<in> set (timers s). timeoutId s = Some t) \<and> (cancelled s \<longrightarrow> timeoutId s = None)"
  by (simp add: engine_inv_def)

lemma inv_drop_timers: "engine_inv cfg s \<Longrightarrow> engine_inv cfg (s\<lparr>timers := []\<rparr>)"
  by (auto simp: engine_inv_def)

lemma inv_timer:
  assumes "engine_inv cfg s" and "t \<in> set (timers s)"
  shows "engine_inv cfg (attemptReconnect (clearTimeout t s))"
proof -
  from assms have gone: "removeAll t (timers s) = []"
    unfolding engine_inv_def by (blast intro: removeAll_handle)
  from assms have armed: "timers s \<noteq> []" by auto
  with assms(1) have idle: "phase s = Idle" by (simp add: engine_inv_def)
  from assms(1) have handle: "cancelled s \<longrightarrow> timeoutId s = None" by (simp add: engine_inv_def)
  show ?thesis
  proof (cases "reconnected s \<or> cancelled s")
    case True
    with gone have "attemptReconnect (clearTimeout t s) = s\<lparr>timers := []\<rparr>"
      by (auto simp: attemptReconnect_def clearTimeout_def)
    with assms(1) show ?thesis by (simp add: inv_drop_timers)
  next
    case False
    with assms(1) armed have "notified s = [] \<and> session s = Null"
      by (simp add: engine_inv_def)
    with False gone handle show ?thesis
      by (simp add: engine_inv_def attemptReconnect_def clearTimeout_def)
  qed
qed

lemma inv_after_healthCheck:
  assumes "engine_inv cfg s" and "phase s = AwaitHealthCheck"
  shows "engine_inv cfg (after_healthCheck s)"
  using inv_active [OF assms(1)] inv_handle [OF assms(1)] assms(2)
  by (simp add: engine_inv_def after_healthCheck_def)

lemma inv_catch_block:
  assumes "engine_inv cfg s" and "phase s \<noteq> Idle"
  shows "engine_inv cfg (catch_block e s)"
  using inv_active [OF assms] inv_handle [OF assms(1)]
  by (simp add: engine_inv_def catch_block_def setTimeout_def Let_def messages_differ)

lemma inv_after_onReconnected:
  assumes "engine_inv cfg s" and "phase s = AwaitOnReconnected"
  shows "engine_inv cfg (after_onReconnected cfg v s)"
proof -
  from assms have f: "timers s = []" "\<not> reconnected s" "notified s = []"
    using inv_active [OF assms(1)] by simp_all
  note h = inv_handle [OF assms(1)]
  show ?thesis
  proof (cases "onNotify cfg success_message")
    case None
    with f h show ?thesis
      by (simp add: engine_inv_def after_onReconnected_def Let_def messages_differ)
  next
    case (Some e)
    with f h show ?thesis
      by (simp add: engine_inv_def after_onReconnected_def catch_block_def setTimeout_def
            Let_def messages_differ success_notice_throws_401_def)
  qed
qed

lemma inv_cancel:
  assumes "engine_inv cfg s"
  shows "engine_inv cfg (cancel cfg' s)"
proof (cases "timeoutId s")
  case None
  with inv_handle [OF assms] have "timers s = []" by (cases "timers s") auto
  with None assms show ?thesis by (auto simp: engine_inv_def cancel_def Let_def)
next
  case (Some t)
  with inv_handle [OF assms] have "\<forall>x \<in> set (timers s). x = t" by simp
  then have "removeAll t (timers s) = []" by (rule removeAll_all)
  with Some assms show ?thesis by (auto simp: engine_inv_def cancel_def clearTimeout_def Let_def)
qed

lemma inv_step: "engine_inv cfg s \<Longrightarrow> step cfg ev s = Some s' \<Longrightarrow> engine_inv cfg s'"
  by (cases ev)
    (auto simp: inv_timer inv_after_healthCheck inv_after_onReconnected inv_catch_block inv_cancel
       split: if_splits)

lemma inv_run: "engine_inv cfg s \<Longrightarrow> run cfg evs s = Some s' \<Longrightarrow> engine_inv cfg s'"
proof (induction evs arbitrary: s)
  case Nil
  then show ?case by simp
next
  case (Cons ev evs)
  then show ?case by (auto split: option.splits dest: inv_step)
qed

lemma inv_reachable:
  "run cfg evs (startOfflineReconnection cfg) = Some s \<Longrightarrow> engine_inv cfg s"
  using inv_run inv_start by blast

lemma armed_timer_idle:
  "run cfg evs (startOfflineReconnection cfg) = Some s \<Longrightarrow> t \<in> set (timers s) \<Longrightarrow> phase s = Idle"
  using inv_reachable [of cfg evs s] by (auto simp: engine_inv_def)

lemma run_append:
  "run cfg (xs @ ys) s = (case run cfg xs s of None \<Rightarrow> None | Some s' \<Rightarrow> run cfg ys s')"
  by (induction xs arbitrary: s) (auto split: option.splits)

lemma run_trace_run:
  "run_trace cfg evs s = Some tr \<Longrightarrow> tr \<noteq> [] \<and> hd tr = s \<and> run cfg evs s = Some (last tr)"
proof (induction evs arbitrary: s tr)
  case Nil
  then show ?case by auto
next
  case (Cons ev evs)
  then show ?case by (fastforce split: option.splits)
qed

lemma same_outcome_refl: "same_outcome s s"
  by (simp add: same_outcome_def)

lemma same_outcome_trans: "same_outcome a b \<Longrightarrow> same_outcome b c \<Longrightarrow> same_outcome a c"
  by (simp add: same_outcome_def)

lemma cancel_effect:
  "cancelled (cancel cfg s) \<and> phase (cancel cfg s) = phase s \<and> same_outcome s (cancel cfg s) \<and>
   cleanupCalls (cancel cfg s) = cleanupCalls s + (if onCleanup cfg then 1 else 0)"
  by (cases "timeoutId s") (simp_all add: cancel_def clearTimeout_def Let_def same_outcome_def)

lemma cancel_timers:
  "timers s = [] \<Longrightarrow> timers (cancel cfg s) = []"
  by (cases "timeoutId s") (simp_all add: cancel_def clearTimeout_def Let_def)

lemma quiescent_settled: "quiescent s \<Longrightarrow> settled s"
  by (simp add: quiescent_def settled_def)

lemma quiescent_step:
  assumes "quiescent s" and "step cfg ev s = Some s'"
  shows "ev = Cancel \<and> quiescent s' \<and> same_outcome s s'"
proof (cases ev)
  case Cancel
  with assms show ?thesis
    using cancel_effect [of cfg s] cancel_timers [of s cfg] by (auto simp: quiescent_def)
qed (use assms in \<open>auto simp: quiescent_def\<close>)

lemma quiescent_run:
  "quiescent s \<Longrightarrow> run cfg evs s = Some s' \<Longrightarrow> quiescent s' \<and> same_outcome s s'"
proof (induction evs arbitrary: s)
  case Nil
  then show ?case by (simp add: same_outcome_refl)
next
  case (Cons ev evs)
  then obtain s1 where s1: "step cfg ev s = Some s1" "run cfg evs s1 = Some s'"
    by (auto split: option.splits)
  with Cons.prems have "quiescent s1" "same_outcome s s1" by (auto dest: quiescent_step)
  with Cons.IH s1 show ?case by (blast intro: same_outcome_trans)
qed

lemma quiescent_only_cancel:
  "quiescent s \<Longrightarrow> run cfg evs s = Some s' \<Longrightarrow> \<forall>ev \<in> set evs. ev = Cancel"
proof (induction evs arbitrary: s)
  case Nil
  then show ?case by simp
next
  case (Cons ev evs)
  then obtain s1 where s1: "step cfg ev s = Some s1" "run cfg evs s1 = Some s'"
    by (auto split: option.splits)
  with Cons.prems have "ev = Cancel" "quiescent s1" by (auto dest: quiescent_step)
  with Cons.IH s1 show ?case by auto
qed

lemma settled_step:
  assumes "settled s" and "step cfg ev s = Some s'"
  shows "settled s' \<and> same_outcome s s' \<and> \<not> is_resolution ev"
proof (cases ev)
  case (TimerFires t)
  with assms have "t \<in> set (timers s)" by (simp split: if_splits)
  with assms(1) have "reconnected s" by (auto simp: settled_def)
  with assms TimerFires show ?thesis
    by (auto simp: settled_def same_outcome_def attemptReconnect_def clearTimeout_def
          split: if_splits)
next
  case Cancel
  with assms show ?thesis
    using cancel_effect [of cfg s] cancel_timers [of s cfg]
    by (auto simp: settled_def same_outcome_def)
qed (use assms in \<open>auto simp: settled_def\<close>)

lemma settled_run:
  "settled s \<Longrightarrow> run cfg evs s = Some s' \<Longrightarrow>
     settled s' \<and> same_outcome s s' \<and> filter is_resolution evs = []"
proof (induction evs arbitrary: s)
  case Nil
  then show ?case by (simp add: same_outcome_refl)
next
  case (Cons ev evs)
  then obtain s1 where s1: "step cfg ev s = Some s1" "run cfg evs s1 = Some s'"
    by (auto split: option.splits)
  from settled_step [OF Cons.prems(1) s1(1)] have
    st: "settled s1" "same_outcome s s1" "\<not> is_resolution ev" by simp_all
  from Cons.IH [OF st(1) s1(2)] st show ?case by (auto intro: same_outcome_trans)
qed

lemma settled_trace:
  "settled s \<Longrightarrow> run_trace cfg evs s = Some tr \<Longrightarrow> \<forall>x \<in> set tr. settled x \<and> same_outcome s x"
proof (induction evs arbitrary: s tr)
  case Nil
  then show ?case by (auto simp: same_outcome_refl)
next
  case (Cons ev evs)
  then obtain s1 tr1 where s1: "step cfg ev s = Some s1" "run_trace cfg evs s1 = Some tr1" "tr = s # tr1"
    by (auto split: option.splits)
  from settled_step [OF Cons.prems(1) s1(1)] have q: "settled s1" "same_outcome s s1" by simp_all
  with Cons.IH s1 have "\<forall>x \<in> set tr1. settled x \<and> same_outcome s x"
    by (blast intro: same_outcome_trans)
  with s1 Cons.prems show ?case by (auto simp: same_outcome_refl)
qed

lemma inv_no_timers:
  "engine_inv cfg s \<Longrightarrow> cancelled s \<or> phase s \<noteq> Idle \<Longrightarrow> timers s = []"
  by (cases "timers s") (auto simp: engine_inv_def)

lemma inv_settled:
  "engine_inv cfg s \<Longrightarrow> reconnected s \<or> notified s \<noteq> [] \<or> session s \<noteq> Null \<Longrightarrow> settled s"
  by (auto simp: engine_inv_def settled_def)

lemma inv_unflagged_settled:
  "engine_inv cfg s \<Longrightarrow> \<not> reconnected s \<Longrightarrow> notified s \<noteq> [] \<or> session s \<noteq> Null \<Longrightarrow> quiescent s"
  by (auto simp: engine_inv_def quiescent_def)

lemma armed_start: "armed 0 (startOfflineReconnection cfg)"
  by (simp add: armed_def startOfflineReconnection_def setTimeout_def)

lemma one_failure:
  assumes "armed k s" and "\<not> is401 e"
  shows "\<exists>s1 s2. step cfg (TimerFires k) s = Some s1 \<and> step cfg (HealthCheckThrows e) s1 = Some s2 \<and>
           \<not> reconnected s1 \<and> armed (Suc k) s2 \<and>
           onReconnectedCalls s2 = onReconnectedCalls s \<and>
           failureCount s2 = Suc (failureCount s) \<and>
           healthCheckCalls s2 = Suc (healthCheckCalls s)"
  using assms
  by (simp add: armed_def attemptReconnect_def clearTimeout_def catch_block_def setTimeout_def)

lemma success_notice:
  assumes "\<not> cancelled s" and "notified s = []" and "timers s = []"
  shows "reconnected (after_onReconnected cfg v s) \<and> settled (after_onReconnected cfg v s) \<and>
         session (after_onReconnected cfg v s) = v \<and>
         onReconnectedCalls (after_onReconnected cfg v s) = onReconnectedCalls s \<and>
         healthCheckCalls (after_onReconnected cfg v s) = healthCheckCalls s \<and>
         notified (after_onReconnected cfg v s) =
           success_message # (if success_notice_throws_401 cfg then [auth_failed_message] else []) \<and>
         failureCount (after_onReconnected cfg v s) =
           failureCount s + (if success_notice_throws_other cfg then 1 else 0)"
proof (cases "onNotify cfg success_message")
  case None
  with assms show ?thesis
    by (simp add: after_onReconnected_def settled_def success_notice_throws_401_def
          success_notice_throws_other_def)
next
  case (Some e)
  with assms show ?thesis
    by (simp add: after_onReconnected_def catch_block_def setTimeout_def settled_def Let_def
          success_notice_throws_401_def success_notice_throws_other_def)
qed

lemma final_success:
  assumes "armed k s"
  shows "\<exists>s1 s2 s3. step cfg (TimerFires k) s = Some s1 \<and> step cfg HealthCheckResolves s1 = Some s2 \<and>
           step cfg (OnReconnectedResolves v) s2 = Some s3 \<and>
           \<not> reconnected s1 \<and> \<not> reconnected s2 \<and> reconnected s3 \<and> settled s3 \<and>
           onReconnectedCalls s3 = Suc (onReconnectedCalls s) \<and>
           session s3 = v \<and>
           notified s3 =
             success_message # (if success_notice_throws_401 cfg then [auth_failed_message] else []) \<and>
           failureCount s3 = failureCount s + (if success_notice_throws_other cfg then 1 else 0) \<and>
           healthCheckCalls s3 = Suc (healthCheckCalls s)"
proof -
  let ?a = "attemptReconnect (clearTimeout k s)"
  let ?b = "after_healthCheck ?a"
  let ?c = "after_onReconnected cfg v ?b"
  from assms have a: "step cfg (TimerFires k) s = Some ?a" "phase ?a = AwaitHealthCheck"
    "\<not> reconnected ?a"
    by (simp_all add: armed_def attemptReconnect_def clearTimeout_def)
  from assms have b: "phase ?b = AwaitOnReconnected" "\<not> reconnected ?b" "\<not> cancelled ?b"
    "notified ?b = []" "timers ?b = []" "onReconnectedCalls ?b = Suc (onReconnectedCalls s)"
    "healthCheckCalls ?b = Suc (healthCheckCalls s)" "failureCount ?b = failureCount s"
    by (simp_all add: armed_def attemptReconnect_def clearTimeout_def after_healthCheck_def)
  from a(2) have ab: "step cfg HealthCheckResolves ?a = Some ?b" by simp
  from b(1) have bc: "step cfg (OnReconnectedResolves v) ?b = Some ?c" by simp
  from success_notice [OF b(3,4,5), of cfg v] b(6,7,8) a(1,3) ab bc b(2) show ?thesis
    by (intro exI [of _ ?a] exI [of _ ?b] exI [of _ ?c]) simp
qed

lemma failures_then_success_trace:
  assumes "armed k s" and "\<forall>e \<in> set errs. \<not> is401 e"
  shows "\<exists>tr. run_trace cfg (failures_then_success k errs v) s = Some tr \<and>
           settled (last tr) \<and> reconnected (last tr) \<and>
           becomes_true (map reconnected tr) = 1 \<and>
           onReconnectedCalls (last tr) = Suc (onReconnectedCalls s) \<and>
           session (last tr) = v \<and>
           notified (last tr) =
             success_message # (if success_notice_throws_401 cfg then [auth_failed_message] else []) \<and>
           failureCount (last tr) =
             failureCount s + length errs + (if success_notice_throws_other cfg then 1 else 0) \<and>
           healthCheckCalls (last tr) = Suc (healthCheckCalls s + length errs)"
  using assms
proof (induction errs arbitrary: k s)
  case Nil
  from final_success [OF Nil.prems(1), of cfg v] obtain s1 s2 s3 where
    st: "step cfg (TimerFires k) s = Some s1" "step cfg HealthCheckResolves s1 = Some s2"
      "step cfg (OnReconnectedResolves v) s2 = Some s3"
    and fl: "\<not> reconnected s1" "\<not> reconnected s2" "reconnected s3" "settled s3"
    and rest: "onReconnectedCalls s3 = Suc (onReconnectedCalls s)" "session s3 = v"
      "notified s3 =
         success_message # (if success_notice_throws_401 cfg then [auth_failed_message] else [])"
      "failureCount s3 = failureCount s + (if success_notice_throws_other cfg then 1 else 0)"
      "healthCheckCalls s3 = Suc (healthCheckCalls s)"
    by blast
  from Nil.prems(1) have "\<not> reconnected s" by (simp add: armed_def)
  with st fl rest show ?case by simp
next
  case (Cons e errs)
  from Cons.prems have ne: "\<not> is401 e" and rest: "\<forall>e \<in> set errs. \<not> is401 e" by simp_all
  from one_failure [OF Cons.prems(1) ne, of cfg] obtain s1 s2 where
    st: "step cfg (TimerFires k) s = Some s1" "step cfg (HealthCheckThrows e) s1 = Some s2"
    and fl: "\<not> reconnected s1" "armed (Suc k) s2"
    and cnt: "onReconnectedCalls s2 = onReconnectedCalls s"
      "failureCount s2 = Suc (failureCount s)" "healthCheckCalls s2 = Suc (healthCheckCalls s)"
    by blast
  from Cons.IH [OF fl(2) rest] obtain tr where
    tr: "run_trace cfg (failures_then_success (Suc k) errs v) s2 = Some tr"
    and q: "settled (last tr)" "reconnected (last tr)" "becomes_true (map reconnected tr) = 1"
    and c2: "onReconnectedCalls (last tr) = Suc (onReconnectedCalls s2)" "session (last tr) = v"
      "notified (last tr) =
         success_message # (if success_notice_throws_401 cfg then [auth_failed_message] else [])"
      "failureCount (last tr) =
         failureCount s2 + length errs + (if success_notice_throws_other cfg then 1 else 0)"
      "healthCheckCalls (last tr) = Suc (healthCheckCalls s2 + length errs)"
    by blast
  from run_trace_run [OF tr] obtain tl_tr where shape: "tr = s2 # tl_tr"
    by (cases tr) auto
  from Cons.prems(1) fl(2) have "\<not> reconnected s" "\<not> reconnected s2"
    by (simp_all add: armed_def)
  with fl(1) q(3) shape have "becomes_true (map reconnected (s # s1 # tr)) = 1" by simp
  moreover from st tr have
    "run_trace cfg (failures_then_success k (e # errs) v) s = Some (s # s1 # tr)" by simp
  moreover from shape have "last (s # s1 # tr) = last tr" by simp
  ultimately show ?case using q c2 cnt by simp
qed

lemma failures_then_success_starts:
  "\<exists>evs. failures_then_success k errs v = TimerFires k # evs"
  by (cases errs) simp_all

lemma no_success_after_401:
  assumes "armed k s" and "\<exists>e \<in> set errs. is401 e"
  shows "run_trace cfg (failures_then_success k errs v) s = None"
  using assms
proof (induction errs arbitrary: k s)
  case Nil
  then show ?case by simp
next
  case (Cons e errs)
  obtain evs where evs: "failures_then_success (Suc k) errs v = TimerFires (Suc k) # evs"
    using failures_then_success_starts by blast
  show ?case
  proof (cases "is401 e")
    case True
    let ?w = "attemptReconnect (clearTimeout k s)"
    from Cons.prems(1) have w: "step cfg (TimerFires k) s = Some ?w" "phase ?w = AwaitHealthCheck"
      "timers ?w = []"
      by (simp_all add: armed_def attemptReconnect_def clearTimeout_def)
    with True have "timers (catch_block e ?w) = []" by (simp add: catch_block_def)
    then have "step cfg (TimerFires (Suc k)) (catch_block e ?w) = None" by simp
    with w evs show ?thesis by simp
  next
    case False
    with Cons.prems(2) have later: "\<exists>e \<in> set errs. is401 e" by simp
    from one_failure [OF Cons.prems(1) False, of cfg] obtain s1 s2 where
      st: "step cfg (TimerFires k) s = Some s1" "step cfg (HealthCheckThrows e) s1 = Some s2"
      and a: "armed (Suc k) s2"
      by blast
    from Cons.IH [OF a later] st show ?thesis by simp
  qed
qed

lemma quiet_config_notice:
  "\<not> success_notice_throws_401 quiet_config" "\<not> success_notice_throws_other quiet_config"
  "onCleanup quiet_config"
  by (simp_all add: quiet_config_def success_notice_throws_401_def success_notice_throws_other_def)

section \<open>Properties of the reconnection engine\<close>

text \<open>
  C1. Every run that consists of some number of failed health checks (each coming after
  a timer has fired), then a health check that succeeds and a reconnection callback that
  resolves, ends with the reconnection callback called exactly once and with
  \<^verbatim>\<open>isReconnected()\<close> having gone from false to true exactly once, however many failures
  came first. The success message is the first notification, and the only one unless
  \<^verbatim>\<open>onNotify\<close> throws an Axios 401 on it; the failures counted are the failed health
  checks, and one more when \<^verbatim>\<open>onNotify\<close> throws something else on the success message.
  In whatever follows the flag stays set and the callback is not called again. Such a run
  exists whenever none of the failures is the terminal 401 (after a 401 there is no
  further health check that could succeed). A run in which \<^verbatim>\<open>cancel()\<close> comes in between
  is the subject of C3 and C7.
\<close>

theorem reconnects_once_after_failures:
  "((\<forall>e \<in> set errs. \<not> is401 e) \<longrightarrow>
      run_trace cfg (failures_then_success 0 errs v) (startOfflineReconnection cfg) \<noteq> None) \<and>
   (\<forall>tr. run_trace cfg (failures_then_success 0 errs v) (startOfflineReconnection cfg) = Some tr \<longrightarrow>
      onReconnectedCalls (last tr) = 1 \<and>
      isReconnected (last tr) \<and>
      becomes_true (map isReconnected tr) = 1 \<and>
      failureCount (last tr) = length errs + (if success_notice_throws_other cfg then 1 else 0) \<and>
      notified (last tr) =
        success_message # (if success_notice_throws_401 cfg then [auth_failed_message] else []) \<and>
      getSession (last tr) = v \<and>
      (\<forall>evs tr'. run_trace cfg evs (last tr) = Some tr' \<longrightarrow>
         (\<forall>x \<in> set tr'. isReconnected x \<and> onReconnectedCalls x = 1)))"
proof (cases "\<forall>e \<in> set errs. \<not> is401 e")
  case True
  have iR: "isReconnected = (reconnected :: 'a engine \<Rightarrow> bool)"
    by (rule ext) (simp add: isReconnected_def)
  from failures_then_success_trace [where cfg = cfg and v = v, OF armed_start True] obtain tr where
    tr: "run_trace cfg (failures_then_success 0 errs v) (startOfflineReconnection cfg) = Some tr"
    and q: "settled (last tr)" "reconnected (last tr)" "becomes_true (map reconnected tr) = 1"
    and c: "onReconnectedCalls (last tr) = Suc (onReconnectedCalls (startOfflineReconnection cfg :: 'a engine))"
      "session (last tr) = v"
      "notified (last tr) =
         success_message # (if success_notice_throws_401 cfg then [auth_failed_message] else [])"
      "failureCount (last tr) =
         failureCount (startOfflineReconnection cfg :: 'a engine) + length errs +
           (if success_notice_throws_other cfg then 1 else 0)"
    by blast
  have z: "onReconnectedCalls (startOfflineReconnection cfg :: 'a engine) = 0"
    "failureCount (startOfflineReconnection cfg :: 'a engine) = 0"
    by (simp_all add: startOfflineReconnection_def setTimeout_def)
  have after: "\<forall>x \<in> set tr'. isReconnected x \<and> onReconnectedCalls x = 1"
    if "run_trace cfg evs (last tr) = Some tr'" for evs tr'
    using settled_trace [OF q(1) that] q(2) c(1) z(1) by (auto simp: same_outcome_def iR)
  from tr q c z after True show ?thesis by (auto simp: iR getSession_def)
next
  case False
  then have "\<exists>e \<in> set errs. is401 e" by blast
  from no_success_after_401 [where cfg = cfg and v = v, OF armed_start this] False
  show ?thesis by simp
qed

theorem reconnects_once_after_failures_witness:
  "\<not> is401 (Thrown False None) \<and>
   (\<exists>tr. run_trace quiet_config
           (failures_then_success 0 [Thrown False None, Thrown False None] (Value ''x''))
           (startOfflineReconnection quiet_config) = Some tr \<and>
         onReconnectedCalls (last tr) = 1 \<and> isReconnected (last tr) \<and>
         becomes_true (map isReconnected tr) = 1 \<and> failureCount (last tr) = 2 \<and>
         notified (last tr) = [success_message] \<and> getSession (last tr) = Value ''x'')"
proof -
  let ?run = "run_trace quiet_config
           (failures_then_success 0 [Thrown False None, Thrown False None] (Value ''x''))
           (startOfflineReconnection quiet_config) :: string engine list option"
  have n: "\<not> is401 (Thrown False None)"
    by (simp add: is401_def)
  then have h: "\<forall>e \<in> set [Thrown False None, Thrown False None]. \<not> is401 e"
    by simp
  note t = reconnects_once_after_failures
    [where errs = "[Thrown False None, Thrown False None]" and cfg = quiet_config
       and v = "Value ''x'' :: string jsval"]
  from t [THEN conjunct1] h obtain tr where tr: "?run = Some tr" by blast
  from t [THEN conjunct2] tr have
    "onReconnectedCalls (last tr) = 1 \<and> isReconnected (last tr) \<and>
     becomes_true (map isReconnected tr) = 1 \<and>
     failureCount (last tr) =
       length [Thrown False None, Thrown False None] +
         (if success_notice_throws_other quiet_config then 1 else 0) \<and>
     notified (last tr) =
       success_message # (if success_notice_throws_401 quiet_config then [auth_failed_message] else []) \<and>
     getSession (last tr) = Value ''x''"
    by blast
  then have
    "onReconnectedCalls (last tr) = 1 \<and> isReconnected (last tr) \<and>
     becomes_true (map isReconnected tr) = 1 \<and> failureCount (last tr) = 2 \<and>
     notified (last tr) = [success_message] \<and> getSession (last tr) = Value ''x''"
    by (simp add: quiet_config_notice)
  with n tr show ?thesis by blast
qed

lemma cancel_cancelled:
  assumes "engine_inv cfg s" and "cancelled s"
  shows "cancel cfg s = s\<lparr>cleanupCalls := cleanupCalls (cancel cfg s)\<rparr>"
proof -
  from assms have "timeoutId s = None" by (simp add: engine_inv_def)
  moreover from assms(2) have "s\<lparr>cancelled := True\<rparr> = s" by (cases s) simp
  ultimately show ?thesis by (simp add: cancel_def Let_def)
qed

lemma cancelled_step:
  assumes "engine_inv cfg s" and "cancelled s" and "step cfg ev s = Some s'"
  shows "cancelled s' \<and> timers s' = [] \<and> nextTimer s' = nextTimer s \<and>
         healthCheckCalls s' = healthCheckCalls s \<and>
         onReconnectedCalls s' = onReconnectedCalls s \<and> reconnected s' = reconnected s"
proof -
  from assms have nt: "timers s = []" by (simp add: inv_no_timers)
  show ?thesis
  proof (cases ev)
    case Cancel
    with assms nt show ?thesis
      using cancel_effect [of cfg s] cancel_timers [of s cfg] by (auto simp: same_outcome_def)
  qed (use assms nt in \<open>auto simp: after_healthCheck_def after_onReconnected_def catch_block_def
         Let_def split: if_splits\<close>)
qed

lemma cancelled_run:
  assumes "engine_inv cfg s" and "cancelled s" and "run cfg evs s = Some s'"
  shows "cancelled s' \<and> timers s' = [] \<and> nextTimer s' = nextTimer s \<and>
         healthCheckCalls s' = healthCheckCalls s \<and>
         onReconnectedCalls s' = onReconnectedCalls s \<and> reconnected s' = reconnected s"
  using assms
proof (induction evs arbitrary: s)
  case Nil
  then show ?case by (simp add: inv_no_timers)
next
  case (Cons ev evs)
  then obtain s1 where s1: "step cfg ev s = Some s1" "run cfg evs s1 = Some s'"
    by (auto split: option.splits)
  from cancelled_step [OF Cons.prems(1,2) s1(1)] inv_step [OF Cons.prems(1) s1(1)]
    Cons.IH [OF _ _ s1(2)]
  show ?case by simp
qed

lemma catch_401:
  assumes "engine_inv cfg s" and "phase s \<noteq> Idle" and "is401 e"
  shows "quiescent (catch_block e s) \<and> notified (catch_block e s) = [auth_failed_message] \<and>
         \<not> reconnected (catch_block e s) \<and>
         nextTimer (catch_block e s) = nextTimer s \<and>
         healthCheckCalls (catch_block e s) = healthCheckCalls s \<and>
         onReconnectedCalls (catch_block e s) = onReconnectedCalls s"
  using assms(3) inv_active [OF assms(1,2)]
  by (simp add: catch_block_def quiescent_def)

text \<open>
  C2, as stated, is about any thrown error that carries the HTTP status 401. The catch
  block takes an error for the terminal one only when \<^verbatim>\<open>axios.isAxiosError\<close> accepts it.
  A thrown value with \<^verbatim>\<open>response.status\<close> 401 that is not an Axios error is retried like
  a network failure: nothing is notified, the failure is counted and the next timer is
  armed, and the run can go on to a successful reconnection.
\<close>

theorem non_axios_401_is_retried:
  "response_status (Thrown False (Some 401)) = Some 401 \<and>
   map_option notified
     (run quiet_config [TimerFires 0, HealthCheckThrows (Thrown False (Some 401))]
        (startOfflineReconnection quiet_config :: string engine)) = Some [] \<and>
   map_option timers
     (run quiet_config [TimerFires 0, HealthCheckThrows (Thrown False (Some 401))]
        (startOfflineReconnection quiet_config :: string engine)) = Some [1] \<and>
   map_option failureCount
     (run quiet_config [TimerFires 0, HealthCheckThrows (Thrown False (Some 401))]
        (startOfflineReconnection quiet_config :: string engine)) = Some 1 \<and>
   map_option notified
     (run quiet_config
        [TimerFires 0, HealthCheckThrows (Thrown False (Some 401)), TimerFires 1,
         HealthCheckResolves, OnReconnectedResolves (Value ''x'')]
        (startOfflineReconnection quiet_config :: string engine)) = Some [success_message]"
  by (simp add: startOfflineReconnection_def setTimeout_def clearTimeout_def attemptReconnect_def
        after_healthCheck_def after_onReconnected_def catch_block_def is401_def quiet_config_def)

text \<open>
  C2, amended. In every run where the health check or the reconnection callback of an
  attempt throws an Axios error (one that \<^verbatim>\<open>axios.isAxiosError\<close> accepts) whose response
  status is 401, the engine stops for good. The reconnection callback is not called for
  that attempt when the health check threw (the number of its calls stays what it was),
  no timer is set then or later, no further health check is started, and the
  notifications of the whole run are exactly one: the fixed authentication-failure
  message.
\<close>

theorem stops_on_401:
  assumes "run cfg pre (startOfflineReconnection cfg) = Some s"
    and "is401 e"
    and "ev = HealthCheckThrows e \<or> ev = OnReconnectedThrows e"
    and "step cfg ev s = Some s1"
    and "run cfg evs s1 = Some s2"
  shows "notified s2 = [auth_failed_message] \<and>
         onReconnectedCalls s2 = onReconnectedCalls s \<and>
         healthCheckCalls s2 = healthCheckCalls s \<and>
         nextTimer s2 = nextTimer s \<and> timers s2 = [] \<and> phase s2 = Idle \<and>
         \<not> isReconnected s2 \<and>
         (\<forall>x \<in> set evs. x = Cancel)"
proof -
  from assms(1) have inv: "engine_inv cfg s" by (rule inv_reachable)
  from assms(3,4) have ph: "phase s \<noteq> Idle" and s1: "s1 = catch_block e s"
    by (auto split: if_splits)
  from catch_401 [OF inv ph assms(2)] s1 have
    q: "quiescent s1" and f: "notified s1 = [auth_failed_message]" "\<not> reconnected s1"
      "nextTimer s1 = nextTimer s" "healthCheckCalls s1 = healthCheckCalls s"
      "onReconnectedCalls s1 = onReconnectedCalls s"
    by simp_all
  from quiescent_run [OF q assms(5)] have "quiescent s2" "same_outcome s1 s2" by simp_all
  with f quiescent_only_cancel [OF q assms(5)] show ?thesis
    by (simp add: same_outcome_def quiescent_def isReconnected_def)
qed

theorem stops_on_401_witness:
  "is401 (Thrown True (Some 401)) \<and>
   (\<exists>s s1 s2 :: string engine.
      run quiet_config [TimerFires 0] (startOfflineReconnection quiet_config) = Some s \<and>
      step quiet_config (HealthCheckThrows (Thrown True (Some 401))) s = Some s1 \<and>
      run quiet_config [Cancel] s1 = Some s2 \<and>
      notified s2 = [auth_failed_message] \<and> onReconnectedCalls s2 = 0 \<and>
      healthCheckCalls s2 = 1 \<and> nextTimer s2 = 1 \<and> timers s2 = [] \<and> \<not> isReconnected s2)"
proof -
  let ?cfg = "quiet_config"
  let ?e = "Thrown True (Some 401)"
  let ?init = "startOfflineReconnection ?cfg :: string engine"
  let ?await = "attemptReconnect (clearTimeout 0 ?init)"
  let ?stopped = "catch_block ?e ?await"
  let ?final = "cancel ?cfg ?stopped"
  have a: "run ?cfg [TimerFires 0] ?init = Some ?await"
    by (simp add: startOfflineReconnection_def setTimeout_def)
  have b: "is401 ?e" by (simp add: is401_def)
  have c: "step ?cfg (HealthCheckThrows ?e) ?await = Some ?stopped"
    by (simp add: startOfflineReconnection_def setTimeout_def attemptReconnect_def clearTimeout_def)
  have d: "run ?cfg [Cancel] ?stopped = Some ?final" by simp
  have n: "healthCheckCalls ?await = 1" "nextTimer ?await = 1" "onReconnectedCalls ?await = 0"
    by (simp_all add: startOfflineReconnection_def setTimeout_def attemptReconnect_def
          clearTimeout_def)
  from stops_on_401 [OF a b _ c d] n have
    "notified ?final = [auth_failed_message] \<and> onReconnectedCalls ?final = 0 \<and>
     healthCheckCalls ?final = 1 \<and> nextTimer ?final = 1 \<and> timers ?final = [] \<and> \<not> isReconnected ?final"
    by simp
  with a b c d show ?thesis by blast
qed

lemma cancelled_await_resolves:
  assumes "engine_inv cfg s" and "cancelled s" and "phase s = AwaitOnReconnected"
    and "run cfg (mid @ OnReconnectedResolves v # rest) s = Some s'"
  shows "session s' = v \<and> \<not> reconnected s' \<and> notified s' = []"
  using assms
proof (induction mid arbitrary: s)
  case Nil
  let ?r = "after_onReconnected cfg v s"
  from Nil.prems have r: "run cfg rest ?r = Some s'" by simp
  from Nil.prems inv_active [of cfg s] have
    "quiescent ?r" "session ?r = v" "\<not> reconnected ?r" "notified ?r = []"
    by (simp_all add: after_onReconnected_def quiescent_def)
  with quiescent_run [OF _ r] show ?case by (simp add: same_outcome_def)
next
  case (Cons ev mid)
  then obtain s1 where s1: "step cfg ev s = Some s1"
    "run cfg (mid @ OnReconnectedResolves v # rest) s1 = Some s'"
    by (auto split: option.splits)
  have "\<not> quiescent s1"
  proof
    assume "quiescent s1"
    from quiescent_only_cancel [OF this s1(2)] show False by simp
  qed
  moreover from Cons.prems inv_no_timers [of cfg s] have nt: "timers s = []" by simp
  ultimately have "ev = Cancel"
    using s1(1) Cons.prems(2,3) nt
    by (cases ev)
      (auto simp: quiescent_def after_onReconnected_def catch_block_def Let_def split: if_splits)
  with s1(1) have s1_eq: "s1 = cancel cfg s" by simp
  with cancel_effect [of cfg s] Cons.prems(3) have "cancelled s1" "phase s1 = AwaitOnReconnected"
    by simp_all
  moreover from Cons.prems(1) s1_eq have "engine_inv cfg s1" by (simp add: inv_cancel)
  ultimately show ?case using Cons.IH s1(2) by blast
qed

text \<open>
  C3. In every run where \<^verbatim>\<open>cancel()\<close> is called while the reconnection callback is in
  flight and the callback later resolves with a value, \<^verbatim>\<open>getSession()\<close> returns that
  value from then on, no success notification is sent (nothing is notified at all) and
  \<^verbatim>\<open>isReconnected()\<close> stays false, whatever happens in between and afterwards.
\<close>

theorem cancel_during_callback_keeps_session:
  assumes "run cfg pre (startOfflineReconnection cfg) = Some s"
    and "phase s = AwaitOnReconnected"
    and "run cfg (Cancel # mid @ OnReconnectedResolves v # rest) s = Some s'"
  shows "getSession s' = v \<and> \<not> isReconnected s' \<and> success_message \<notin> set (notified s') \<and>
         notified s' = []"
proof -
  from assms(1) have inv: "engine_inv cfg s" by (rule inv_reachable)
  from assms(3) have r: "run cfg (mid @ OnReconnectedResolves v # rest) (cancel cfg s) = Some s'"
    by simp
  from cancel_effect [of cfg s] assms(2) have "cancelled (cancel cfg s)"
    "phase (cancel cfg s) = AwaitOnReconnected" by simp_all
  from cancelled_await_resolves [OF inv_cancel [OF inv] this r]
  show ?thesis by (simp add: getSession_def isReconnected_def)
qed

theorem cancel_during_callback_keeps_session_witness:
  "\<exists>s s' :: string engine.
     run quiet_config [TimerFires 0, HealthCheckResolves]
       (startOfflineReconnection quiet_config) = Some s \<and>
     phase s = AwaitOnReconnected \<and>
     run quiet_config (Cancel # [Cancel] @ OnReconnectedResolves (Value ''session'') # [Cancel]) s
       = Some s' \<and>
     getSession s' = Value ''session'' \<and> \<not> isReconnected s' \<and> notified s' = []"
proof -
  let ?cfg = "quiet_config"
  let ?init = "startOfflineReconnection ?cfg :: string engine"
  let ?await = "after_healthCheck (attemptReconnect (clearTimeout 0 ?init))"
  let ?final = "cancel ?cfg (after_onReconnected ?cfg (Value ''session'') (cancel ?cfg (cancel ?cfg ?await)))"
  have a: "run ?cfg [TimerFires 0, HealthCheckResolves] ?init = Some ?await"
    by (simp add: startOfflineReconnection_def setTimeout_def attemptReconnect_def clearTimeout_def)
  have b: "phase ?await = AwaitOnReconnected"
    by (simp add: startOfflineReconnection_def setTimeout_def attemptReconnect_def clearTimeout_def
          after_healthCheck_def)
  have "phase (cancel ?cfg (cancel ?cfg ?await)) = AwaitOnReconnected"
    using cancel_effect [of ?cfg "cancel ?cfg ?await"] cancel_effect [of ?cfg ?await] b by simp
  then have c: "run ?cfg (Cancel # [Cancel] @ OnReconnectedResolves (Value ''session'') # [Cancel]) ?await
      = Some ?final"
    by simp
  from cancel_during_callback_keeps_session [OF a b c] a b c show ?thesis by blast
qed

lemma resolution_settles:
  assumes "engine_inv cfg s" and "step cfg (OnReconnectedResolves v) s = Some s'"
  shows "settled s'"
proof -
  from assms(2) have ph: "phase s = AwaitOnReconnected" and s': "s' = after_onReconnected cfg v s"
    by (auto split: if_splits)
  from inv_active [OF assms(1)] ph have f: "timers s = []" "notified s = []" by simp_all
  show ?thesis
  proof (cases "cancelled s")
    case True
    with f s' show ?thesis by (simp add: after_onReconnected_def settled_def)
  next
    case False
    from success_notice [OF False f(2,1), of cfg v] s' show ?thesis by simp
  qed
qed

lemma resolutions_at_most_one:
  assumes "engine_inv cfg s" and "run cfg evs s = Some s'"
  shows "length (filter is_resolution evs) \<le> 1"
  using assms
proof (induction evs arbitrary: s)
  case Nil
  then show ?case by simp
next
  case (Cons ev evs)
  then obtain s1 where s1: "step cfg ev s = Some s1" "run cfg evs s1 = Some s'"
    by (auto split: option.splits)
  from Cons.prems(1) s1(1) have inv1: "engine_inv cfg s1" by (rule inv_step)
  show ?case
  proof (cases "is_resolution ev")
    case True
    then obtain v where "ev = OnReconnectedResolves v" by (cases ev) auto
    with Cons.prems(1) s1(1) have "settled s1" by (auto dest: resolution_settles)
    from settled_run [OF this s1(2)] have "filter is_resolution evs = []" by simp
    with True show ?thesis by simp
  next
    case False
    with Cons.IH [OF inv1 s1(2)] show ?thesis by simp
  qed
qed

text \<open>
  C6. For every handle and every sequence of events: once \<^verbatim>\<open>isReconnected()\<close> returns
  true it returns true ever after, and at most one session value is ever produced and
  stored: the callback resolves, and \<^verbatim>\<open>session\<close> is assigned, at most once in a run, and
  a session that is no longer null keeps its value.
\<close>

theorem reconnected_is_final_one_session:
  assumes "run cfg evs1 (startOfflineReconnection cfg) = Some s1"
    and "run cfg evs2 s1 = Some s2"
  shows "(isReconnected s1 \<longrightarrow> isReconnected s2) \<and>
         (getSession s1 \<noteq> Null \<longrightarrow> getSession s2 = getSession s1) \<and>
         length (filter is_resolution (evs1 @ evs2)) \<le> 1"
proof -
  from assms(1) have inv: "engine_inv cfg s1" by (rule inv_reachable)
  have "same_outcome s1 s2" if "reconnected s1 \<or> session s1 \<noteq> Null"
    using settled_run [OF inv_settled [OF inv] assms(2)] that by blast
  then have keep: "isReconnected s1 \<longrightarrow> isReconnected s2"
    "getSession s1 \<noteq> Null \<longrightarrow> getSession s2 = getSession s1"
    by (auto simp: same_outcome_def isReconnected_def getSession_def)
  from assms have "run cfg (evs1 @ evs2) (startOfflineReconnection cfg) = Some s2"
    by (simp add: run_append)
  from resolutions_at_most_one [OF inv_start this] keep show ?thesis by simp
qed

theorem reconnected_is_final_one_session_witness:
  "\<exists>s1 s2 :: string engine.
     run quiet_config [TimerFires 0, HealthCheckResolves, OnReconnectedResolves (Value ''a'')]
       (startOfflineReconnection quiet_config) = Some s1 \<and>
     run quiet_config [Cancel, Cancel] s1 = Some s2 \<and>
     isReconnected s1 \<and> isReconnected s2 \<and>
     getSession s1 = Value ''a'' \<and> getSession s2 = Value ''a''"
proof -
  let ?cfg = "quiet_config"
  let ?init = "startOfflineReconnection ?cfg :: string engine"
  let ?done = "after_onReconnected ?cfg (Value ''a'') (after_healthCheck (attemptReconnect (clearTimeout 0 ?init)))"
  let ?final = "cancel ?cfg (cancel ?cfg ?done)"
  have a: "run ?cfg [TimerFires 0, HealthCheckResolves, OnReconnectedResolves (Value ''a'')] ?init
             = Some ?done"
    by (simp add: startOfflineReconnection_def setTimeout_def attemptReconnect_def clearTimeout_def
          after_healthCheck_def)
  have b: "run ?cfg [Cancel, Cancel] ?done = Some ?final" by simp
  have c: "isReconnected ?done" "getSession ?done = Value ''a''"
    by (simp_all add: startOfflineReconnection_def setTimeout_def attemptReconnect_def
          clearTimeout_def after_healthCheck_def after_onReconnected_def isReconnected_def
          getSession_def quiet_config_def)
  from reconnected_is_final_one_session [OF a b] c have
    "isReconnected ?final" "getSession ?final = Value ''a''" by simp_all
  with a b c show ?thesis by blast
qed

lemma notifications_shape:
  assumes "run cfg evs (startOfflineReconnection cfg) = Some s"
  shows "count_list (notified s) success_message \<le> 1 \<and>
         count_list (notified s) auth_failed_message \<le> 1 \<and>
         (success_message \<in> set (notified s) \<and> auth_failed_message \<in> set (notified s) \<longrightarrow>
            success_notice_throws_401 cfg)"
proof -
  from assms have "engine_inv cfg s" by (rule inv_reachable)
  then have "distinct (notified s)"
    and "success_message \<in> set (notified s) \<and> auth_failed_message \<in> set (notified s) \<longrightarrow>
           success_notice_throws_401 cfg"
    by (simp_all add: engine_inv_def)
  moreover have "count_list xs x \<le> 1" if "distinct xs" for xs :: "string list" and x
    using that by (induction xs) (auto simp: count_list_0_iff)
  ultimately show ?thesis by blast
qed

text \<open>
  C8. In every run the success notification is to be delivered at most once, the
  authentication-failure notification at most once, and never both. The engine delivers
  each at most once (\<open>notifications_shape\<close>), but it can deliver both: the success
  notification is sent from inside the \<^verbatim>\<open>try\<close> block, so when \<^verbatim>\<open>onNotify\<close> throws an
  Axios 401 on the success message, the catch block sends the authentication-failure
  message after it. One timer, a health check that succeeds and a callback that resolves
  then end with both messages notified and the flag set.
\<close>

theorem success_notice_401_sends_both:
  "onNotify throwing_config success_message = Some (Thrown True (Some 401)) \<and>
   map_option notified
     (run throwing_config [TimerFires 0, HealthCheckResolves, OnReconnectedResolves (Value ''x'')]
        (startOfflineReconnection throwing_config :: string engine))
     = Some [success_message, auth_failed_message] \<and>
   map_option isReconnected
     (run throwing_config [TimerFires 0, HealthCheckResolves, OnReconnectedResolves (Value ''x'')]
        (startOfflineReconnection throwing_config :: string engine))
     = Some True"
  by (simp add: startOfflineReconnection_def setTimeout_def clearTimeout_def attemptReconnect_def
        after_healthCheck_def after_onReconnected_def catch_block_def is401_def
        throwing_config_def isReconnected_def)

text \<open>
  C7. \<^verbatim>\<open>cancel()\<close> can be called in any state and any number of times. Each call runs
  the cleanup callback exactly once (when one is configured). A call after the first
  changes nothing but the cleanup count, so it has no further effect on scheduling. After
  any call no timer is armed and none is ever set again, and no further health check or
  reconnection callback is started. In particular, when \<^verbatim>\<open>cancel()\<close> is called before the
  initial delay has elapsed, the reconnection callback is never called.
\<close>

theorem cancel_any_number_of_times:
  assumes "run cfg pre (startOfflineReconnection cfg) = Some (s :: 'a engine)"
  shows "step cfg Cancel s = Some (cancel cfg s) \<and>
         cleanupCalls (cancel cfg s) = cleanupCalls s + (if onCleanup cfg then 1 else 0) \<and>
         (cancelled s \<longrightarrow> cancel cfg s = s\<lparr>cleanupCalls := cleanupCalls (cancel cfg s)\<rparr>) \<and>
         (\<forall>evs s'. run cfg evs (cancel cfg s) = Some s' \<longrightarrow>
            timers s' = [] \<and> nextTimer s' = nextTimer s \<and>
            healthCheckCalls s' = healthCheckCalls s \<and>
            onReconnectedCalls s' = onReconnectedCalls s) \<and>
         (\<forall>evs s'. run cfg (Cancel # evs) (startOfflineReconnection cfg) = Some (s' :: 'a engine) \<longrightarrow>
            onReconnectedCalls s' = 0 \<and> \<not> isReconnected s')"
proof -
  from assms have inv: "engine_inv cfg s" by (rule inv_reachable)
  have eff: "cancelled (cancel cfg s)" "same_outcome s (cancel cfg s)"
    "cleanupCalls (cancel cfg s) = cleanupCalls s + (if onCleanup cfg then 1 else 0)"
    using cancel_effect [of cfg s] by simp_all
  have again: "cancelled s \<longrightarrow> cancel cfg s = s\<lparr>cleanupCalls := cleanupCalls (cancel cfg s)\<rparr>"
    using cancel_cancelled [OF inv] by blast
  have later: "timers s' = [] \<and> nextTimer s' = nextTimer s \<and>
      healthCheckCalls s' = healthCheckCalls s \<and> onReconnectedCalls s' = onReconnectedCalls s"
    if "run cfg evs (cancel cfg s) = Some s'" for evs s'
    using cancelled_run [OF inv_cancel [OF inv] eff(1) that] eff(2)
    by (simp add: same_outcome_def)
  have early: "onReconnectedCalls s' = 0 \<and> \<not> isReconnected s'"
    if "run cfg (Cancel # evs) (startOfflineReconnection cfg) = Some s'" for evs and s' :: "'a engine"
  proof -
    let ?init = "startOfflineReconnection cfg :: 'a engine"
    from that have r: "run cfg evs (cancel cfg ?init) = Some s'" by simp
    have c: "cancelled (cancel cfg ?init)" using cancel_effect [of cfg ?init] by simp
    have z: "onReconnectedCalls (cancel cfg ?init) = 0" "\<not> reconnected (cancel cfg ?init)"
      using cancel_effect [of cfg ?init]
      by (simp_all add: same_outcome_def startOfflineReconnection_def setTimeout_def)
    from cancelled_run [OF inv_cancel [OF inv_start] c r] z show ?thesis
      by (simp add: isReconnected_def)
  qed
  from eff(3) again later early show ?thesis by simp
qed

theorem cancel_any_number_of_times_witness:
  "\<exists>s s' :: string engine.
     run quiet_config [Cancel] (startOfflineReconnection quiet_config) = Some s \<and>
     cancelled s \<and>
     step quiet_config Cancel s = Some (cancel quiet_config s) \<and>
     cleanupCalls s = 1 \<and> cleanupCalls (cancel quiet_config s) = 2 \<and>
     cancel quiet_config s = s\<lparr>cleanupCalls := 2\<rparr> \<and>
     run quiet_config [Cancel, Cancel] (cancel quiet_config s) = Some s' \<and>
     timers s' = [] \<and> nextTimer s' = 1 \<and> healthCheckCalls s' = 0 \<and> onReconnectedCalls s' = 0"
proof -
  let ?cfg = "quiet_config"
  let ?init = "startOfflineReconnection ?cfg :: string engine"
  let ?once = "cancel ?cfg ?init"
  let ?final = "cancel ?cfg (cancel ?cfg (cancel ?cfg ?once))"
  have a: "run ?cfg [Cancel] ?init = Some ?once" by simp
  have b: "cancelled ?once" "cleanupCalls ?once = 1" "nextTimer ?once = 1"
    "healthCheckCalls ?once = 0" "onReconnectedCalls ?once = 0"
    by (simp_all add: startOfflineReconnection_def setTimeout_def cancel_def clearTimeout_def
          quiet_config_def)
  have c: "run ?cfg [Cancel, Cancel] (cancel ?cfg ?once) = Some ?final" by simp
  note t = cancel_any_number_of_times [OF a]
  from t have t1: "step ?cfg Cancel ?once = Some (cancel ?cfg ?once)" by (rule conjunct1)
  from t [THEN conjunct2, THEN conjunct1] b(2) have t2: "cleanupCalls (cancel ?cfg ?once) = 2"
    by (simp add: quiet_config_notice)
  from t [THEN conjunct2, THEN conjunct2, THEN conjunct1] b(1) t2 have
    t3: "cancel ?cfg ?once = ?once\<lparr>cleanupCalls := 2\<rparr>" by simp
  from t [THEN conjunct2, THEN conjunct2, THEN conjunct2, THEN conjunct1, rule_format, OF c] b
  have t4: "timers ?final = [] \<and> nextTimer ?final = 1 \<and> healthCheckCalls ?final = 0 \<and>
     onReconnectedCalls ?final = 0" by simp
  from a b c t1 t2 t3 t4 show ?thesis by blast
qed

text \<open>
  C10. When the reconnection callback resolves with \<^verbatim>\<open>null\<close> or \<^verbatim>\<open>undefined\<close> and the
  run has not been cancelled, the attempt still counts as a success: the flag is set, the
  success notification is sent (first, and alone unless \<^verbatim>\<open>onNotify\<close> throws an Axios 401
  on it), and \<^verbatim>\<open>getSession()\<close> returns that \<^verbatim>\<open>null\<close> or \<^verbatim>\<open>undefined\<close>, then and ever
  after. So a null \<^verbatim>\<open>getSession()\<close> next to a true \<^verbatim>\<open>isReconnected()\<close> does occur.
\<close>

theorem null_session_is_still_success:
  assumes "run cfg pre (startOfflineReconnection cfg) = Some s"
    and "phase s = AwaitOnReconnected"
    and "\<not> cancelled s"
    and "v = Null \<or> v = Undefined"
  shows "\<exists>s'. step cfg (OnReconnectedResolves v) s = Some s' \<and>
           isReconnected s' \<and>
           notified s' =
             success_message # (if success_notice_throws_401 cfg then [auth_failed_message] else []) \<and>
           getSession s' = v \<and>
           (\<forall>evs s''. run cfg evs s' = Some s'' \<longrightarrow>
              isReconnected s'' \<and> notified s'' = notified s' \<and> getSession s'' = v)"
proof -
  from assms(1) have inv: "engine_inv cfg s" by (rule inv_reachable)
  let ?r = "after_onReconnected cfg v s"
  from assms(2) have st: "step cfg (OnReconnectedResolves v) s = Some ?r" by simp
  from inv_active [OF inv] assms(2) have e: "notified s = []" "timers s = []" by simp_all
  from success_notice [OF assms(3) e, of cfg v] have
    f: "reconnected ?r" "settled ?r" "session ?r = v"
      "notified ?r =
         success_message # (if success_notice_throws_401 cfg then [auth_failed_message] else [])"
    by simp_all
  have "isReconnected s'' \<and> notified s'' = notified ?r \<and> getSession s'' = v"
    if "run cfg evs ?r = Some s''" for evs s''
    using settled_run [OF f(2) that] f
    by (simp add: same_outcome_def isReconnected_def getSession_def)
  with st f show ?thesis by (simp add: isReconnected_def getSession_def)
qed

theorem null_session_is_still_success_witness:
  "\<exists>s s' :: string engine.
     run quiet_config [TimerFires 0, HealthCheckResolves]
       (startOfflineReconnection quiet_config) = Some s \<and>
     phase s = AwaitOnReconnected \<and> \<not> cancelled s \<and>
     step quiet_config (OnReconnectedResolves Null) s = Some s' \<and>
     isReconnected s' \<and> notified s' = [success_message] \<and> getSession s' = Null"
proof -
  let ?cfg = "quiet_config"
  let ?init = "startOfflineReconnection ?cfg :: string engine"
  let ?await = "after_healthCheck (attemptReconnect (clearTimeout 0 ?init))"
  have a: "run ?cfg [TimerFires 0, HealthCheckResolves] ?init = Some ?await"
    by (simp add: startOfflineReconnection_def setTimeout_def attemptReconnect_def clearTimeout_def)
  have b: "phase ?await = AwaitOnReconnected" "\<not> cancelled ?await"
    by (simp_all add: startOfflineReconnection_def setTimeout_def attemptReconnect_def
          clearTimeout_def after_healthCheck_def)
  have c: "(Null :: string jsval) = Null \<or> (Null :: string jsval) = Undefined" by simp
  from null_session_is_still_success [OF a b c] obtain s' where
    "step ?cfg (OnReconnectedResolves Null) ?await = Some s'" "isReconnected s'"
    "notified s' =
       success_message # (if success_notice_throws_401 ?cfg then [auth_failed_message] else [])"
    "getSession s' = Null"
    by blast
  then have "step ?cfg (OnReconnectedResolves Null) ?await = Some s' \<and> isReconnected s' \<and>
     notified s' = [success_message] \<and> getSession s' = Null"
    by (simp add: quiet_config_notice)
  with a b show ?thesis by blast
qed

section \<open>Properties of the offline state aggregator\<close>

lemma map_of_Map_set: "map_of (Map_set k v m) = (map_of m)(k \<mapsto> v)"
  by (induction m) auto

lemma fail_offline:
  "state s = offline \<Longrightarrow>
     fail f s = s\<lparr>failures := Map_set (operation f) f (failures s)\<rparr>"
  by (simp add: fail_def)

lemma fail_online:
  "state s = online \<Longrightarrow>
     state (fail f s) = offline \<and> warnings (fail f s) = Suc (warnings s) \<and>
     failures (fail f s) = Map_set (operation f) f (failures s)"
  by (simp add: fail_def print_def warnings_def Let_def o_def)

lemma warnings_apply_call:
  "warnings (apply_call c s) =
     warnings s + (if state s = online \<and> state (apply_call c s) = offline then 1 else 0)"
proof (cases c)
  case (Fail f)
  show ?thesis
  proof (cases "state s")
    case online
    with Fail fail_online [of s f] show ?thesis by simp
  next
    case offline
    with Fail show ?thesis by (simp add: fail_offline warnings_def)
  qed
qed (simp_all add: recover_def setBackend_def reset_def warnings_def)

lemma warnings_run_calls: "warnings (run_calls cs s) = warnings s + went_offline cs s"
  by (induction cs arbitrary: s) (simp_all add: warnings_apply_call)

lemma offline_stays_silent:
  assumes "state s = offline" and "Recover \<notin> set cs" and "Reset \<notin> set cs"
  shows "state (run_calls cs s) = offline \<and> console (run_calls cs s) = console s"
  using assms
proof (induction cs arbitrary: s)
  case Nil
  then show ?case by simp
next
  case (Cons c cs)
  from Cons.prems have "state (apply_call c s) = offline \<and> console (apply_call c s) = console s"
    by (cases c) (simp_all add: fail_offline setBackend_def)
  with Cons show ?case by simp
qed

lemma online_no_failures_call:
  "(state s = online \<longrightarrow> failures s = []) \<Longrightarrow>
   (state (apply_call c s) = online \<longrightarrow> failures (apply_call c s) = [])"
  by (cases c) (auto simp: fail_def print_def recover_def setBackend_def reset_def Let_def)

lemma online_no_failures:
  assumes "state (run_calls cs connectionState) = online"
  shows "failures (run_calls cs connectionState) = []"
proof -
  have "(state s = online \<longrightarrow> failures s = []) \<Longrightarrow>
        (state (run_calls cs s) = online \<longrightarrow> failures (run_calls cs s) = [])" for s
  proof (induction cs arbitrary: s)
    case Nil
    then show ?case by simp
  next
    case (Cons c cs)
    from Cons.IH [OF online_no_failures_call [OF Cons.prems]] show ?case by simp
  qed
  moreover have "failures connectionState = []" by (simp add: connectionState_def)
  ultimately show ?thesis using assms by blast
qed

lemma first_fail_prints_itself:
  assumes "state s = online" and "failures s = []"
  shows "console (fail f s) =
           console s @ Plain (warning_prefix @ describe f) #
             map (\<lambda>l. Yellow (detail_prefix @ l)) (case details f of None \<Rightarrow> [] | Some d \<Rightarrow> d)"
  using assms by (simp add: fail_def print_def)

text \<open>
  C4. Starting from mode \<open>online\<close>, two callers report the failures of the operations
  \<^verbatim>\<open>Session creation\<close> (error code 404) and \<^verbatim>\<open>Machine registration\<close> (error code
  ECONNREFUSED). The class comment promises one message with all failure details, and one
  warning line naming both operations is what is specified. \<^verbatim>\<open>fail\<close> prints during the
  first call, when only the first failure is stored (\<open>online_no_failures\<close>,
  \<open>first_fail_prints_itself\<close>): exactly one line is printed, it names
  \<^verbatim>\<open>Session creation\<close> and does not contain \<^verbatim>\<open>Machine registration\<close>, although both
  failures are stored afterwards.
\<close>

theorem two_callers_warning_names_first_only:
  "console (run_calls [Fail session_creation_404, Fail machine_registration_refused] connectionState)
     = [Plain (warning_prefix @
          ''Session creation failed: 404 - endpoint not found, check server deployment'')] \<and>
   sublist ''Session creation''
     (warning_prefix @
        ''Session creation failed: 404 - endpoint not found, check server deployment'') \<and>
   \<not> sublist ''Machine registration''
     (warning_prefix @
        ''Session creation failed: 404 - endpoint not found, check server deployment'') \<and>
   map fst (failures
     (run_calls [Fail session_creation_404, Fail machine_registration_refused] connectionState))
     = [''Session creation'', ''Machine registration'']"
proof -
  have out: "console (run_calls [Fail session_creation_404, Fail machine_registration_refused]
        connectionState)
     = [Plain (warning_prefix @
          ''Session creation failed: 404 - endpoint not found, check server deployment'')]"
    by (simp add: fail_def print_def connectionState_def session_creation_404_def
          machine_registration_refused_def describe_def ERROR_DESCRIPTIONS_def)
  have first: "sublist ''Session creation''
     (warning_prefix @
        ''Session creation failed: 404 - endpoint not found, check server deployment'')"
    by (simp add: warning_prefix_def sublist_Cons_right)
  have second: "\<not> sublist ''Machine registration''
     (warning_prefix @
        ''Session creation failed: 404 - endpoint not found, check server deployment'')"
    by (simp add: warning_prefix_def sublist_Cons_right)
  have stored: "map fst (failures
     (run_calls [Fail session_creation_404, Fail machine_registration_refused] connectionState))
     = [''Session creation'', ''Machine registration'']"
    by (simp add: fail_def print_def connectionState_def session_creation_404_def
          machine_registration_refused_def)
  from out first second stored show ?thesis by blast
qed

text \<open>
  C5, as stated, has \<^verbatim>\<open>recover()\<close> as the only way back to a printing \<^verbatim>\<open>fail\<close>. The
  aggregator has a second one: after \<^verbatim>\<open>reset()\<close> the next \<^verbatim>\<open>fail\<close> prints a new
  warning although \<^verbatim>\<open>recover()\<close> was never called.
\<close>

theorem reset_rearms_warning:
  "state (fail session_creation_404 connectionState) = offline \<and>
   Recover \<notin> set [Reset, Fail session_creation_404] \<and>
   warnings (run_calls [Reset, Fail session_creation_404] (fail session_creation_404 connectionState))
     = Suc (warnings (fail session_creation_404 connectionState))"
  by (simp add: fail_def print_def reset_def connectionState_def warnings_def)

text \<open>
  C5, amended. For every sequence of aggregator calls a warning is printed exactly once
  per online-to-offline transition. A \<^verbatim>\<open>fail\<close> that starts in mode \<open>offline\<close> stores its
  failure under its operation name, leaves the other entries alone and prints nothing; a
  \<^verbatim>\<open>fail\<close> that starts in mode \<open>online\<close> switches to \<open>offline\<close> and prints exactly one
  warning. \<^verbatim>\<open>recover()\<close> and \<^verbatim>\<open>reset()\<close> each clear the failures, set the mode to
  \<open>online\<close> and print nothing. Once the mode is \<open>offline\<close>, nothing is printed until
  \<^verbatim>\<open>recover()\<close> or \<^verbatim>\<open>reset()\<close> is called.
\<close>

theorem one_warning_per_outage:
  "(state s = offline \<longrightarrow>
      console (fail f s) = console s \<and> state (fail f s) = offline \<and>
      map_of (failures (fail f s)) = (map_of (failures s))(operation f \<mapsto> f)) \<and>
   (state s = online \<longrightarrow>
      warnings (fail f s) = Suc (warnings s) \<and> state (fail f s) = offline \<and>
      map_of (failures (fail f s)) = (map_of (failures s))(operation f \<mapsto> f)) \<and>
   (state (recover s) = online \<and> failures (recover s) = [] \<and> console (recover s) = console s) \<and>
   (state (reset s) = online \<and> failures (reset s) = [] \<and> console (reset s) = console s) \<and>
   warnings (run_calls cs s) = warnings s + went_offline cs s \<and>
   (state s = offline \<and> Recover \<notin> set cs \<and> Reset \<notin> set cs \<longrightarrow>
      console (run_calls cs s) = console s \<and> state (run_calls cs s) = offline)"
proof -
  have a: "state s = offline \<longrightarrow>
      console (fail f s) = console s \<and> state (fail f s) = offline \<and>
      map_of (failures (fail f s)) = (map_of (failures s))(operation f \<mapsto> f)"
    by (simp add: fail_offline map_of_Map_set)
  have b: "state s = online \<longrightarrow>
      warnings (fail f s) = Suc (warnings s) \<and> state (fail f s) = offline \<and>
      map_of (failures (fail f s)) = (map_of (failures s))(operation f \<mapsto> f)"
    using fail_online [of s f] by (simp add: map_of_Map_set)
  have c: "state (recover s) = online \<and> failures (recover s) = [] \<and> console (recover s) = console s"
    "state (reset s) = online \<and> failures (reset s) = [] \<and> console (reset s) = console s"
    by (simp_all add: recover_def reset_def)
  have d: "state s = offline \<and> Recover \<notin> set cs \<and> Reset \<notin> set cs \<longrightarrow>
      console (run_calls cs s) = console s \<and> state (run_calls cs s) = offline"
    using offline_stays_silent [of s cs] by blast
  from a b c d warnings_run_calls [of cs s] show ?thesis by blast
qed

theorem one_warning_per_outage_witness:
  "state (fail session_creation_404 connectionState) = offline \<and>
   console (fail machine_registration_refused (fail session_creation_404 connectionState))
     = console (fail session_creation_404 connectionState) \<and>
   map_of (failures (fail machine_registration_refused (fail session_creation_404 connectionState)))
     ''Machine registration'' = Some machine_registration_refused \<and>
   state connectionState = online \<and>
   warnings (fail session_creation_404 connectionState) = Suc (warnings connectionState) \<and>
   Recover \<notin> set [Fail machine_registration_refused, SetBackend ''Codex'', Fail session_creation_404] \<and>
   Reset \<notin> set [Fail machine_registration_refused, SetBackend ''Codex'', Fail session_creation_404] \<and>
   console (run_calls [Fail machine_registration_refused, SetBackend ''Codex'', Fail session_creation_404]
              (fail session_creation_404 connectionState))
     = console (fail session_creation_404 connectionState)"
proof -
  let ?cs = "[Fail machine_registration_refused, SetBackend ''Codex'', Fail session_creation_404]"
  let ?down = "fail session_creation_404 connectionState"
  have on: "state connectionState = online" by (simp add: connectionState_def)
  have off: "state ?down = offline"
    by (simp add: fail_def print_def connectionState_def)
  have nr: "Recover \<notin> set ?cs" "Reset \<notin> set ?cs" by simp_all
  have op: "operation machine_registration_refused = ''Machine registration''"
    by (simp add: machine_registration_refused_def)
  note down = one_warning_per_outage [of ?down machine_registration_refused ?cs]
  note up = one_warning_per_outage [of connectionState session_creation_404 "[]"]
  from down [THEN conjunct1, rule_format, OF off] op have
    d1: "console (fail machine_registration_refused ?down) = console ?down"
      "map_of (failures (fail machine_registration_refused ?down)) ''Machine registration''
         = Some machine_registration_refused"
    by simp_all
  from up [THEN conjunct2, THEN conjunct1, rule_format, OF on] have
    u1: "warnings (fail session_creation_404 connectionState) = Suc (warnings connectionState)"
    by simp
  from down [THEN conjunct2, THEN conjunct2, THEN conjunct2, THEN conjunct2, THEN conjunct2]
    off nr have
    d2: "console (run_calls ?cs ?down) = console ?down" by blast
  from on off nr d1 u1 d2 show ?thesis by blast
qed

end
